theory Spec2Isabelle
  imports Complex_Main
begin

section \<open>JavaScript numbers\<close>

text \<open>
  The layout engine of \<^verbatim>\<open>src/utils/responsive.js\<close> computes with JavaScript numbers.
  A number is modelled by the value it denotes: a finite double by the rational it stands
  for, plus the three special values. The sign of zero is dropped (\<open>-0\<close> is \<open>Num 0\<close>).
  Comparisons, \<open>NaN\<close> propagation, truthiness and \<open>Math.round\<close> follow ECMAScript.
  Arithmetic comes twice. The operations \<open>js_mul\<close>, \<open>js_div\<close> and \<open>js_sub\<close> of this section
  are exact on finite numbers; they agree with JavaScript wherever the exact result is a
  double, and on every \<open>NaN\<close> and infinity. The operations \<open>mul64\<close>, \<open>div64\<close> and \<open>sub64\<close>
  further down round each finite result to the nearest double, as JavaScript does.
\<close>

datatype jsnum = Num rat | PosInf | NegInf | NaN

text \<open>The relational operator \<open>a < b\<close>: false as soon as one side is \<open>NaN\<close>.\<close>

fun js_lt :: "jsnum \<Rightarrow> jsnum \<Rightarrow> bool" where
  "js_lt NaN _ = False"
| "js_lt _ NaN = False"
| "js_lt (Num a) (Num b) = (a < b)"
| "js_lt (Num a) PosInf = True"
| "js_lt (Num a) NegInf = False"
| "js_lt PosInf _ = False"
| "js_lt NegInf (Num b) = True"
| "js_lt NegInf PosInf = True"
| "js_lt NegInf NegInf = False"

text \<open>\<open>a > b\<close> is \<open>b < a\<close> with the operands evaluated in source order.\<close>

definition js_gt :: "jsnum \<Rightarrow> jsnum \<Rightarrow> bool" where
  "js_gt a b = js_lt b a"

text \<open>\<open>Math.min\<close> of two numbers: \<open>NaN\<close> if either is.\<close>

definition Math_min :: "jsnum \<Rightarrow> jsnum \<Rightarrow> jsnum" where
  "Math_min a b = (if a = NaN \<or> b = NaN then NaN else if js_lt b a then b else a)"

text \<open>\<open>ToBoolean\<close> on a number: \<open>0\<close> and \<open>NaN\<close> are falsy.\<close>

definition truthy :: "jsnum \<Rightarrow> bool" where
  "truthy a = (a \<noteq> Num 0 \<and> a \<noteq> NaN)"

text \<open>
  The expression \<open>width || screenWidth\<close> where \<open>width\<close> is an optional numeric parameter
  defaulting to \<open>null\<close>: \<open>None\<close> is \<open>null\<close>/\<open>undefined\<close>, which is falsy.
\<close>

fun js_or :: "jsnum option \<Rightarrow> jsnum \<Rightarrow> jsnum" where
  "js_or None d = d"
| "js_or (Some a) d = (if truthy a then a else d)"

text \<open>The sign of a number, and the infinity (or \<open>NaN\<close>) a sign selects.\<close>

fun js_sign :: "jsnum \<Rightarrow> rat" where
  "js_sign (Num a) = sgn a"
| "js_sign PosInf = 1"
| "js_sign NegInf = - 1"
| "js_sign NaN = 0"

definition inf_of_sign :: "rat \<Rightarrow> jsnum" where
  "inf_of_sign s = (if s = 0 then NaN else if 0 < s then PosInf else NegInf)"

fun js_mul :: "jsnum \<Rightarrow> jsnum \<Rightarrow> jsnum" where
  "js_mul NaN _ = NaN"
| "js_mul _ NaN = NaN"
| "js_mul (Num a) (Num b) = Num (a * b)"
| "js_mul a b = inf_of_sign (js_sign a * js_sign b)"

fun js_div :: "jsnum \<Rightarrow> jsnum \<Rightarrow> jsnum" where
  "js_div NaN _ = NaN"
| "js_div _ NaN = NaN"
| "js_div (Num a) (Num b) = (if b = 0 then inf_of_sign (sgn a) else Num (a / b))"
| "js_div (Num a) _ = Num 0"
| "js_div a (Num b) = inf_of_sign (js_sign a * (if b = 0 then 1 else sgn b))"
| "js_div _ _ = NaN"

fun js_sub :: "jsnum \<Rightarrow> jsnum \<Rightarrow> jsnum" where
  "js_sub NaN _ = NaN"
| "js_sub _ NaN = NaN"
| "js_sub (Num a) (Num b) = Num (a - b)"
| "js_sub (Num a) PosInf = NegInf"
| "js_sub (Num a) NegInf = PosInf"
| "js_sub PosInf PosInf = NaN"
| "js_sub PosInf _ = PosInf"
| "js_sub NegInf NegInf = NaN"
| "js_sub NegInf _ = NegInf"

text \<open>\<open>Math.round\<close>: the integer nearest to the argument, ties towards \<open>+\<infinity>\<close>.\<close>

fun Math_round :: "jsnum \<Rightarrow> jsnum" where
  "Math_round (Num a) = Num (of_int \<lfloor>a + 1 / 2\<rfloor>)"
| "Math_round a = a"

section \<open>The host platform\<close>

text \<open>
  \<^verbatim>\<open>Dimensions.get('window')\<close>, \<^verbatim>\<open>Platform.OS\<close> and
  \<^verbatim>\<open>PixelRatio.roundToNearestPixel\<close> are ambient in the source; here they are the fields
  of a host that every function receives.
\<close>

record dimensions =
  width :: jsnum
  height :: jsnum

record host =
  window :: dimensions
  OS :: string
  roundToNearestPixel :: "jsnum \<Rightarrow> jsnum"

definition getCurrentDimensions :: "host \<Rightarrow> dimensions" where
  "getCurrentDimensions h = window h"

section \<open>Device classification and grid columns\<close>

record breakpoint_table =
  small :: jsnum
  medium :: jsnum
  large :: jsnum
  tablet :: jsnum
  largeTablet :: jsnum

definition breakpoints :: breakpoint_table where
  "breakpoints = \<lparr> small = Num 360, medium = Num 400, large = Num 500,
                    tablet = Num 768, largeTablet = Num 1024 \<rparr>"

text \<open>\<^verbatim>\<open>getDeviceType(width = null)\<close>, lines 102-119.\<close>

definition getDeviceType :: "host \<Rightarrow> jsnum option \<Rightarrow> string" where
  "getDeviceType h w =
     (let screenWidth = width (getCurrentDimensions h);
          screenHeight = height (getCurrentDimensions h);
          currentWidth = js_or w screenWidth;
          minDimension = Math_min currentWidth screenHeight
      in if js_lt minDimension (tablet breakpoints) then
           (if js_lt currentWidth (small breakpoints) then ''smallPhone''
            else if js_lt currentWidth (medium breakpoints) then ''mediumPhone''
            else ''largePhone'')
         else
           (if js_lt currentWidth (largeTablet breakpoints) then ''tablet''
            else ''largeTablet''))"

text \<open>The \<^verbatim>\<open>switch (deviceType)\<close> of \<^verbatim>\<open>getGridColumns\<close>, lines 140-151.\<close>

definition gridColumnsSwitch :: "string \<Rightarrow> bool \<Rightarrow> int" where
  "gridColumnsSwitch deviceType isLandscape =
     (if deviceType = ''smallPhone'' \<or> deviceType = ''mediumPhone''
         \<or> deviceType = ''largePhone'' then (if isLandscape then 2 else 1)
      else if deviceType = ''tablet'' then (if isLandscape then 4 else 2)
      else if deviceType = ''largeTablet'' then (if isLandscape then 5 else 3)
      else (if isLandscape then 2 else 1))"

text \<open>
  \<^verbatim>\<open>getGridColumns(width = null)\<close>, lines 126-152. The \<^verbatim>\<open>console.log\<close> call does not
  take part in the result.
\<close>

definition getGridColumns :: "host \<Rightarrow> jsnum option \<Rightarrow> int" where
  "getGridColumns h w =
     (let screenWidth = width (getCurrentDimensions h);
          screenHeight = height (getCurrentDimensions h);
          currentWidth = js_or w screenWidth;
          isLandscape = js_gt currentWidth screenHeight;
          deviceType = getDeviceType h (Some currentWidth)
      in gridColumnsSwitch deviceType isLandscape)"

definition isTablet :: "host \<Rightarrow> jsnum option \<Rightarrow> bool" where
  "isTablet h w =
     (let deviceType = getDeviceType h w
      in deviceType = ''tablet'' \<or> deviceType = ''largeTablet'')"

section \<open>Values passed to the percentage functions\<close>

text \<open>
  \<^verbatim>\<open>wp\<close> and \<^verbatim>\<open>hp\<close> multiply their argument by a number, so the argument goes through
  \<open>ToNumber\<close>. The source calls them with string literals as well as numbers, hence a
  value type with both, and ECMAScript's \<open>StringToNumber\<close>: optional white space around an
  optional \<open>StrNumericLiteral\<close> (a signed decimal literal with optional fraction and
  exponent, \<open>Infinity\<close>, or an unsigned literal with prefix \<open>0x\<close>, \<open>0o\<close>, \<open>0b\<close>); the empty
  string is \<open>0\<close> and everything else is \<open>NaN\<close>. Strings are byte strings here, so only the
  ASCII white space characters are trimmed.
\<close>

datatype jsval = JNumber jsnum | JString string

definition isWhiteSpace :: "char \<Rightarrow> bool" where
  "isWhiteSpace c = ((of_char c :: nat) \<in> {9, 10, 11, 12, 13, 32})"

definition StrTrim :: "string \<Rightarrow> string" where
  "StrTrim s = rev (dropWhile isWhiteSpace (rev (dropWhile isWhiteSpace s)))"

definition digitValue :: "char \<Rightarrow> nat option" where
  "digitValue c =
     (let n = (of_char c :: nat)
      in if 48 \<le> n \<and> n \<le> 57 then Some (n - 48)
         else if 97 \<le> n \<and> n \<le> 122 then Some (n - 87)
         else if 65 \<le> n \<and> n \<le> 90 then Some (n - 55)
         else None)"

definition isDigitOf :: "nat \<Rightarrow> char \<Rightarrow> bool" where
  "isDigitOf radix c = (case digitValue c of None \<Rightarrow> False | Some d \<Rightarrow> d < radix)"

definition digitsValue :: "nat \<Rightarrow> string \<Rightarrow> nat" where
  "digitsValue radix s =
     foldl (\<lambda>a c. a * radix + (case digitValue c of None \<Rightarrow> 0 | Some d \<Rightarrow> d)) 0 s"

definition parseDigits :: "nat \<Rightarrow> string \<Rightarrow> nat option" where
  "parseDigits radix s =
     (if s \<noteq> [] \<and> list_all (isDigitOf radix) s then Some (digitsValue radix s) else None)"

definition parseExponent :: "string \<Rightarrow> int option" where
  "parseExponent s =
     (case s of
        [] \<Rightarrow> Some 0
      | c # t \<Rightarrow>
          if c = CHR ''e'' \<or> c = CHR ''E'' then
            (case t of
               [] \<Rightarrow> None
             | d # ds \<Rightarrow>
                 if d = CHR ''+'' then map_option int (parseDigits 10 ds)
                 else if d = CHR ''-'' then map_option (\<lambda>n. - int n) (parseDigits 10 ds)
                 else map_option int (parseDigits 10 t))
          else None)"

definition pow10 :: "int \<Rightarrow> rat" where
  "pow10 e = (if 0 \<le> e then 10 ^ nat e else 1 / 10 ^ nat (- e))"

definition parseUnsignedDecimal :: "string \<Rightarrow> jsnum option" where
  "parseUnsignedDecimal s =
     (if s = ''Infinity'' then Some PosInf
      else
        let ip = takeWhile (isDigitOf 10) s;
            r1 = dropWhile (isDigitOf 10) s;
            hasDot = (case r1 of [] \<Rightarrow> False | c # _ \<Rightarrow> c = CHR ''.'');
            fp = (if hasDot then takeWhile (isDigitOf 10) (tl r1) else []);
            r2 = (if hasDot then dropWhile (isDigitOf 10) (tl r1) else r1)
        in if ip = [] \<and> fp = [] then None
           else (case parseExponent r2 of
                   None \<Rightarrow> None
                 | Some e \<Rightarrow>
                     Some (Num (of_nat (digitsValue 10 (ip @ fp)) * pow10 (e - int (length fp))))))"

fun js_neg :: "jsnum \<Rightarrow> jsnum" where
  "js_neg (Num a) = Num (- a)"
| "js_neg PosInf = NegInf"
| "js_neg NegInf = PosInf"
| "js_neg NaN = NaN"

definition parseDecimal :: "string \<Rightarrow> jsnum option" where
  "parseDecimal s =
     (case s of
        [] \<Rightarrow> None
      | c # t \<Rightarrow>
          if c = CHR ''+'' then parseUnsignedDecimal t
          else if c = CHR ''-'' then map_option js_neg (parseUnsignedDecimal t)
          else parseUnsignedDecimal s)"

definition parseNonDecimal :: "string \<Rightarrow> nat option" where
  "parseNonDecimal s =
     (case s of
        z # x # ds \<Rightarrow>
          if z \<noteq> CHR ''0'' then None
          else if x = CHR ''x'' \<or> x = CHR ''X'' then parseDigits 16 ds
          else if x = CHR ''o'' \<or> x = CHR ''O'' then parseDigits 8 ds
          else if x = CHR ''b'' \<or> x = CHR ''B'' then parseDigits 2 ds
          else None
      | _ \<Rightarrow> None)"

definition StringToNumber :: "string \<Rightarrow> jsnum" where
  "StringToNumber s =
     (let t = StrTrim s
      in if t = [] then Num 0
         else (case parseNonDecimal t of
                 Some n \<Rightarrow> Num (of_nat n)
               | None \<Rightarrow> (case parseDecimal t of Some v \<Rightarrow> v | None \<Rightarrow> NaN)))"

fun ToNumber :: "jsval \<Rightarrow> jsnum" where
  "ToNumber (JNumber n) = n"
| "ToNumber (JString s) = StringToNumber s"

section \<open>Percentages and fonts\<close>

text \<open>\<^verbatim>\<open>wp(percentage)\<close>, lines 22-26, and \<^verbatim>\<open>hp(percentage)\<close>, lines 33-37.\<close>

definition wp :: "host \<Rightarrow> jsval \<Rightarrow> jsnum" where
  "wp h percentage =
     (let width = width (getCurrentDimensions h);
          v = js_div (js_mul (ToNumber percentage) width) (Num 100)
      in Math_round (roundToNearestPixel h v))"

definition hp :: "host \<Rightarrow> jsval \<Rightarrow> jsnum" where
  "hp h percentage =
     (let height = height (getCurrentDimensions h);
          v = js_div (js_mul (ToNumber percentage) height) (Num 100)
      in Math_round (roundToNearestPixel h v))"

text \<open>
  \<^verbatim>\<open>rf(size)\<close>, lines 44-53, with the exact operations. At the reference width 640 the
  scale is exactly 1 and no operation of the source rounds; for other widths see \<open>rf64\<close>
  below.
\<close>

definition rf :: "host \<Rightarrow> jsnum \<Rightarrow> jsnum" where
  "rf h size' =
     (let screenData = getCurrentDimensions h;
          scale = js_div (width screenData) (Num 640);
          newSize = js_mul size' scale
      in if OS h = ''ios'' then Math_round (roundToNearestPixel h newSize)
         else js_sub (Math_round (roundToNearestPixel h newSize)) (Num 2))"

text \<open>\<^verbatim>\<open>getAdaptivePadding()\<close>, lines 168-177.\<close>

definition getAdaptivePadding :: "host \<Rightarrow> jsnum" where
  "getAdaptivePadding h =
     (let deviceType = getDeviceType h None
      in if deviceType = ''smallPhone'' then wp h (JString ''4%'')
         else if deviceType = ''mediumPhone'' then wp h (JString ''4%'')
         else if deviceType = ''largePhone'' then wp h (JString ''6%'')
         else if deviceType = ''tablet'' then wp h (JString ''8%'')
         else wp h (JString ''10%''))"

text \<open>
  React Native implements \<^verbatim>\<open>PixelRatio.roundToNearestPixel(x)\<close> as
  \<^verbatim>\<open>Math.round(x * ratio) / ratio\<close>, with \<open>ratio\<close> the pixel density of the device. The
  engine itself works with any rounding function; this one instantiates the host in the
  concrete evaluations below.
\<close>

definition pixelRound :: "rat \<Rightarrow> jsnum \<Rightarrow> jsnum" where
  "pixelRound ratio x = js_div (Math_round (js_mul x (Num ratio))) (Num ratio)"

definition mkHost :: "rat \<Rightarrow> rat \<Rightarrow> string \<Rightarrow> rat \<Rightarrow> host" where
  "mkHost w ht os ratio =
     \<lparr> window = \<lparr> width = Num w, height = Num ht \<rparr>, OS = os,
       roundToNearestPixel = pixelRound ratio \<rparr>"

section \<open>Double-precision arithmetic\<close>

text \<open>
  JavaScript rounds the exact result of each arithmetic operation to the nearest binary64
  value, ties to the even significand: 53 significant bits for a result of magnitude at
  least \<open>pow2 (-1022)\<close>, multiples of \<open>pow2 (-1074)\<close> below that, and an infinity once
  the rounded magnitude reaches \<open>pow2 1024\<close>.
\<close>

definition pow2 :: "int \<Rightarrow> rat" where
  "pow2 e = (if 0 \<le> e then of_int (2 ^ nat e) else 1 / of_int (2 ^ nat (- e)))"

text \<open>The number of binary digits of a positive integer, less one.\<close>

function ilog2 :: "int \<Rightarrow> int" where
  "ilog2 n = (if n < 2 then 0 else 1 + ilog2 (n div 2))"
  by pat_completeness auto
termination
  by (relation "measure nat") auto

declare ilog2.simps [simp del]

text \<open>The binary exponent \<open>e\<close> of a positive rational \<open>a\<close>: \<open>pow2 e \<le> a < pow2 (e + 1)\<close>.\<close>

definition exponentOf :: "rat \<Rightarrow> int" where
  "exponentOf a =
     (if 1 \<le> a then ilog2 \<lfloor>a\<rfloor>
      else (let k = ilog2 \<lfloor>1 / a\<rfloor> in if pow2 (- k) \<le> a then - k else - k - 1))"

definition roundHalfEven :: "rat \<Rightarrow> int" where
  "roundHalfEven y =
     (let f = \<lfloor>y\<rfloor>; r = y - of_int f
      in if r < 1 / 2 then f
         else if 1 / 2 < r then f + 1
         else if even f then f else f + 1)"

text \<open>The double nearest to a rational: \<open>t\<close> is the exponent of the last place.\<close>

definition fl64 :: "rat \<Rightarrow> jsnum" where
  "fl64 x =
     (if x = 0 then Num 0
      else
        let a = \<bar>x\<bar>;
            t = max (exponentOf a - 52) (- 1074);
            v = of_int (roundHalfEven (a / pow2 t)) * pow2 t
        in if pow2 1024 \<le> v then inf_of_sign (sgn x) else Num (sgn x * v))"

fun mul64 :: "jsnum \<Rightarrow> jsnum \<Rightarrow> jsnum" where
  "mul64 (Num a) (Num b) = fl64 (a * b)"
| "mul64 a b = js_mul a b"

fun div64 :: "jsnum \<Rightarrow> jsnum \<Rightarrow> jsnum" where
  "div64 (Num a) (Num b) = (if b = 0 then inf_of_sign (sgn a) else fl64 (a / b))"
| "div64 a b = js_div a b"

fun sub64 :: "jsnum \<Rightarrow> jsnum \<Rightarrow> jsnum" where
  "sub64 (Num a) (Num b) = fl64 (a - b)"
| "sub64 a b = js_sub a b"

text \<open>
  \<^verbatim>\<open>rf(size)\<close>, lines 44-53, in double arithmetic: the quotient \<^verbatim>\<open>screenData.width / 640\<close>
  is rounded, then the product \<^verbatim>\<open>size * scale\<close>, then the difference. \<open>Math.round\<close> of a
  double is an integer that is a double, so it is exact.
\<close>

definition rf64 :: "host \<Rightarrow> jsnum \<Rightarrow> jsnum" where
  "rf64 h size' =
     (let screenData = getCurrentDimensions h;
          scale = div64 (width screenData) (Num 640);
          newSize = mul64 size' scale
      in if OS h = ''ios'' then Math_round (roundToNearestPixel h newSize)
         else sub64 (Math_round (roundToNearestPixel h newSize)) (Num 2))"

text \<open>React Native's pixel rounding and a host built on it, in double arithmetic.\<close>

definition pixelRound64 :: "rat \<Rightarrow> jsnum \<Rightarrow> jsnum" where
  "pixelRound64 ratio x = div64 (Math_round (mul64 x (Num ratio))) (Num ratio)"

definition mkHost64 :: "rat \<Rightarrow> rat \<Rightarrow> string \<Rightarrow> rat \<Rightarrow> host" where
  "mkHost64 w ht os ratio =
     \<lparr> window = \<lparr> width = Num w, height = Num ht \<rparr>, OS = os,
       roundToNearestPixel = pixelRound64 ratio \<rparr>"

section \<open>Module-level tables and dimension changes\<close>

text \<open>
  \<^verbatim>\<open>spacing\<close> (lines 69-75) and \<^verbatim>\<open>typography\<close> (lines 78-86) are object literals bound
  to module-level constants: their initialisers run when the module is evaluated, under the
  host of that moment. An object is the list of its properties in source order.
\<close>

record exports =
  spacing :: "(string \<times> jsnum) list"
  typography :: "(string \<times> jsnum) list"

definition loadModule :: "host \<Rightarrow> exports" where
  "loadModule h =
     \<lparr> spacing =
         [(''xs'', wp h (JString ''1%'')),
          (''sm'', wp h (JString ''2%'')),
          (''md'', wp h (JString ''4%'')),
          (''lg'', wp h (JString ''6%'')),
          (''xl'', wp h (JString ''8%''))],
       typography =
         [(''h1'', rf h (Num 28)),
          (''h2'', rf h (Num 24)),
          (''h3'', rf h (Num 20)),
          (''h4'', rf h (Num 18)),
          (''body'', rf h (Num 16)),
          (''caption'', rf h (Num 14)),
          (''small'', rf h (Num 12))] \<rparr>"

text \<open>
  The running application, as far as the engine is concerned: the host, the loaded module,
  and the state of the \<^verbatim>\<open>ResponsiveGrid\<close> that the dashboard mounts without a
  \<^verbatim>\<open>numColumns\<close> property (\<^verbatim>\<open>components/ResponsiveGrid.js\<close>, lines 29-55). A
  \<^verbatim>\<open>change\<close> event of \<^verbatim>\<open>Dimensions\<close> installs the new window and then runs the
  registered listener \<^verbatim>\<open>updateLayout\<close>.
\<close>

record app =
  platform :: host
  responsive :: exports
  columns :: int
  screenWidth :: jsnum

definition updateLayout :: "app \<Rightarrow> app" where
  "updateLayout a =
     (let w = width (window (platform a))
      in a\<lparr> screenWidth := w, columns := getGridColumns (platform a) (Some w) \<rparr>)"

definition mount :: "host \<Rightarrow> app" where
  "mount h =
     updateLayout \<lparr> platform = h, responsive = loadModule h,
                    columns = getGridColumns h None, screenWidth = width (window h) \<rparr>"

definition change :: "app \<Rightarrow> dimensions \<Rightarrow> app" where
  "change a d = updateLayout (a\<lparr> platform := (platform a)\<lparr> window := d \<rparr> \<rparr>)"

definition run :: "host \<Rightarrow> dimensions list \<Rightarrow> app" where
  "run h ds = foldl change (mount h) ds"

section \<open>Vocabulary of the specification\<close>

text \<open>\<open>a <= b\<close> on JavaScript numbers, used to state the bounds of the claims.\<close>

definition js_le :: "jsnum \<Rightarrow> jsnum \<Rightarrow> bool" where
  "js_le a b = (a \<noteq> NaN \<and> b \<noteq> NaN \<and> \<not> js_lt b a)"

text \<open>
  The specification's device classes, their order, and its table of columns by class and
  orientation (the flag is true in landscape). \<open>className\<close> gives the string by which the
  source names a class.
\<close>

datatype deviceClass = SmallPhone | MediumPhone | LargePhone | Tablet | LargeTablet

fun className :: "deviceClass \<Rightarrow> string" where
  "className SmallPhone = ''smallPhone''"
| "className MediumPhone = ''mediumPhone''"
| "className LargePhone = ''largePhone''"
| "className Tablet = ''tablet''"
| "className LargeTablet = ''largeTablet''"

fun columnsTable :: "deviceClass \<Rightarrow> bool \<Rightarrow> int" where
  "columnsTable SmallPhone landscape = (if landscape then 2 else 1)"
| "columnsTable MediumPhone landscape = (if landscape then 2 else 1)"
| "columnsTable LargePhone landscape = (if landscape then 2 else 1)"
| "columnsTable Tablet landscape = (if landscape then 4 else 2)"
| "columnsTable LargeTablet landscape = (if landscape then 5 else 3)"

fun classRank :: "deviceClass \<Rightarrow> nat" where
  "classRank SmallPhone = 0"
| "classRank MediumPhone = 1"
| "classRank LargePhone = 2"
| "classRank Tablet = 3"
| "classRank LargeTablet = 4"

text \<open>The same device turned by a quarter: width and height exchanged.\<close>

definition rotate :: "host \<Rightarrow> host" where
  "rotate h = h\<lparr> window := \<lparr> width = height (window h), height = width (window h) \<rparr> \<rparr>"

section \<open>Classification\<close>

lemma getDeviceType_None:
  "getDeviceType h None =
     (if js_lt (Math_min (width (window h)) (height (window h))) (Num 768) then
        (if js_lt (width (window h)) (Num 360) then ''smallPhone''
         else if js_lt (width (window h)) (Num 400) then ''mediumPhone''
         else ''largePhone'')
      else (if js_lt (width (window h)) (Num 1024) then ''tablet'' else ''largeTablet''))"
  by (simp add: getDeviceType_def getCurrentDimensions_def breakpoints_def Let_def)

lemma js_or_idem: "js_or (Some (js_or w d)) d = js_or w d"
  by (cases w) simp_all

lemma getDeviceType_current:
  "getDeviceType h (Some (js_or w (width (window h)))) = getDeviceType h w"
  by (simp add: getDeviceType_def getCurrentDimensions_def js_or_idem del: js_or.simps)

lemma getDeviceType_className: "\<exists>c. getDeviceType h w = className c"
proof -
  have "getDeviceType h w
          \<in> {''smallPhone'', ''mediumPhone'', ''largePhone'', ''tablet'', ''largeTablet''}"
    by (simp add: getDeviceType_def Let_def)
  then consider "getDeviceType h w = className SmallPhone"
    | "getDeviceType h w = className MediumPhone"
    | "getDeviceType h w = className LargePhone"
    | "getDeviceType h w = className Tablet"
    | "getDeviceType h w = className LargeTablet"
    by auto
  then show ?thesis by cases blast+
qed

text \<open>
  Claim C2. When the smaller of width and height is at least 768, \<^verbatim>\<open>getDeviceType\<close>
  answers \<open>tablet\<close> for a width below 1024 and \<open>largeTablet\<close> otherwise. The height plays no
  part beyond the bound, so two viewports of the same width, one taller and one wider than
  it, get the same class; and the device stays on the tablet side of the phone/tablet split
  when it is turned.
\<close>

theorem getDeviceType_tablet_split:
  assumes "width (window a) = w" and "width (window b) = w"
    and "js_le (Num 768) (Math_min w (height (window a)))"
    and "js_le (Num 768) (Math_min w (height (window b)))"
  shows "getDeviceType a None = (if js_lt w (Num 1024) then ''tablet'' else ''largeTablet'')
       \<and> getDeviceType b None = getDeviceType a None
       \<and> isTablet a None \<and> isTablet (rotate a) None"
proof -
  have a: "\<not> js_lt (Math_min w (height (window a))) (Num 768)"
    using assms(3) by (cases "Math_min w (height (window a))") (auto simp: js_le_def)
  have b: "\<not> js_lt (Math_min w (height (window b))) (Num 768)"
    using assms(4) by (cases "Math_min w (height (window b))") (auto simp: js_le_def)
  have r: "Math_min (height (window a)) w = Math_min w (height (window a))"
    by (cases w; cases "height (window a)") (auto simp: Math_min_def)
  show ?thesis
    using a b r assms(1,2)
    by (simp add: getDeviceType_None isTablet_def rotate_def)
qed

theorem getDeviceType_tablet_split_witness:
  "getDeviceType (mkHost 800 1024 ''ios'' 2) None
     = (if js_lt (Num 800) (Num 1024) then ''tablet'' else ''largeTablet'')
   \<and> getDeviceType (mkHost 800 780 ''ios'' 2) None = getDeviceType (mkHost 800 1024 ''ios'' 2) None
   \<and> isTablet (mkHost 800 1024 ''ios'' 2) None
   \<and> isTablet (rotate (mkHost 800 1024 ''ios'' 2)) None"
  by (rule getDeviceType_tablet_split [of "mkHost 800 1024 ''ios'' 2" "Num 800"
        "mkHost 800 780 ''ios'' 2"])
     (simp_all add: mkHost_def Math_min_def js_le_def)

text \<open>
  Claim C5. Two viewports of the same width whose smaller dimension is below 768 get the
  same phone class, and the width alone selects it: \<open>smallPhone\<close> below 360, \<open>mediumPhone\<close>
  from 360 up to but not including 400, \<open>largePhone\<close> otherwise.
\<close>

theorem getDeviceType_phone_width_only:
  assumes "width (window a) = w" and "width (window b) = w"
    and "js_lt (Math_min w (height (window a))) (Num 768)"
    and "js_lt (Math_min w (height (window b))) (Num 768)"
  shows "getDeviceType a None = getDeviceType b None
       \<and> getDeviceType a None =
           (if js_lt w (Num 360) then ''smallPhone''
            else if js_le (Num 360) w \<and> js_lt w (Num 400) then ''mediumPhone''
            else ''largePhone'')"
proof -
  from assms(3) have "w \<noteq> NaN" by (auto simp: Math_min_def)
  then show ?thesis using assms
    by (cases w) (auto simp: getDeviceType_None js_le_def)
qed

theorem getDeviceType_phone_width_only_witness:
  "getDeviceType (mkHost 380 700 ''android'' 2) None
     = getDeviceType (mkHost 380 300 ''android'' 2) None
   \<and> getDeviceType (mkHost 380 700 ''android'' 2) None =
       (if js_lt (Num 380) (Num 360) then ''smallPhone''
        else if js_le (Num 360) (Num 380) \<and> js_lt (Num 380) (Num 400) then ''mediumPhone''
        else ''largePhone'')"
  by (rule getDeviceType_phone_width_only [of "mkHost 380 700 ''android'' 2" "Num 380"
        "mkHost 380 300 ''android'' 2"])
     (simp_all add: mkHost_def Math_min_def)

section \<open>Grid columns\<close>

lemma getGridColumns_None:
  "getGridColumns h None =
     gridColumnsSwitch (getDeviceType h None) (js_lt (height (window h)) (width (window h)))"
  using getDeviceType_current [of h None]
  by (simp add: getGridColumns_def getCurrentDimensions_def js_gt_def Let_def)

lemma gridColumnsSwitch_className:
  "gridColumnsSwitch (className c) l = columnsTable c l"
  by (cases c) (simp_all add: gridColumnsSwitch_def)

text \<open>
  Claim C1. On a viewport with positive width and height, \<^verbatim>\<open>getGridColumns\<close> returns the
  entry of the specification's table for the class that \<^verbatim>\<open>getDeviceType\<close> gives the
  viewport and for its orientation, landscape meaning that the width exceeds the height.
  The viewport 800 by 1024 gets 2 columns and the viewport 1024 by 800 gets 5.
\<close>

theorem getGridColumns_table:
  assumes "width (window h) = Num w" and "height (window h) = Num ht"
    and "0 < w" and "0 < ht"
  shows "(\<exists>c. getDeviceType h None = className c
              \<and> getGridColumns h None = columnsTable c (ht < w))
       \<and> getGridColumns (h\<lparr> window := \<lparr> width = Num 800, height = Num 1024 \<rparr> \<rparr>) None = 2
       \<and> getGridColumns (h\<lparr> window := \<lparr> width = Num 1024, height = Num 800 \<rparr> \<rparr>) None = 5"
proof -
  obtain c where c: "getDeviceType h None = className c"
    using getDeviceType_className by blast
  have "getGridColumns h None = columnsTable c (ht < w)"
    using assms(1,2) by (simp add: getGridColumns_None c gridColumnsSwitch_className)
  moreover
  have "getGridColumns (h\<lparr> window := \<lparr> width = Num 800, height = Num 1024 \<rparr> \<rparr>) None = 2"
    by (simp add: getGridColumns_None getDeviceType_None Math_min_def gridColumnsSwitch_def)
  moreover
  have "getGridColumns (h\<lparr> window := \<lparr> width = Num 1024, height = Num 800 \<rparr> \<rparr>) None = 5"
    by (simp add: getGridColumns_None getDeviceType_None Math_min_def gridColumnsSwitch_def)
  ultimately show ?thesis using c by blast
qed

theorem getGridColumns_table_witness:
  "(\<exists>c. getDeviceType (mkHost 500 320 ''ios'' 2) None = className c
        \<and> getGridColumns (mkHost 500 320 ''ios'' 2) None = columnsTable c (320 < (500::rat)))
   \<and> getGridColumns
        ((mkHost 500 320 ''ios'' 2)\<lparr> window := \<lparr> width = Num 800, height = Num 1024 \<rparr> \<rparr>) None = 2
   \<and> getGridColumns
        ((mkHost 500 320 ''ios'' 2)\<lparr> window := \<lparr> width = Num 1024, height = Num 800 \<rparr> \<rparr>) None = 5"
  by (rule getGridColumns_table [of "mkHost 500 320 ''ios'' 2" 500 320])
     (simp_all add: mkHost_def)

text \<open>
  Claim C6. For every device class the landscape count is at least the portrait count, and
  in either orientation the count does not decrease along the order of the classes, from
  \<open>smallPhone\<close> through \<open>tablet\<close> to \<open>largeTablet\<close>.
\<close>

theorem gridColumns_monotone:
  "gridColumnsSwitch (className c) False \<le> gridColumnsSwitch (className c) True
   \<and> (classRank c \<le> classRank c' \<longrightarrow>
        gridColumnsSwitch (className c) l \<le> gridColumnsSwitch (className c') l)"
  by (cases c; cases c') (simp_all add: gridColumnsSwitch_def)

theorem gridColumns_monotone_witness:
  "gridColumnsSwitch (className SmallPhone) False \<le> gridColumnsSwitch (className SmallPhone) True
   \<and> classRank SmallPhone \<le> classRank Tablet
   \<and> gridColumnsSwitch (className SmallPhone) True \<le> gridColumnsSwitch (className Tablet) True"
  using gridColumns_monotone [of SmallPhone Tablet True] by simp

text \<open>
  Claim C7. Whatever the viewport (zero, negative, infinite or \<open>NaN\<close> dimensions included)
  and whatever the width passed in, \<^verbatim>\<open>getGridColumns\<close> returns one of 1, 2, 3, 4, 5, so
  at least 1.
\<close>

theorem getGridColumns_range:
  "getGridColumns h w \<in> {1, 2, 3, 4, 5} \<and> 1 \<le> getGridColumns h w"
  by (simp add: getGridColumns_def gridColumnsSwitch_def Let_def)

section \<open>Module-level tables\<close>

lemma responsive_change: "responsive (change a d) = responsive a"
  by (simp add: change_def updateLayout_def Let_def)

lemma responsive_foldl: "responsive (foldl change a ds) = responsive a"
  by (induction ds arbitrary: a) (simp_all add: responsive_change)

text \<open>
  Claim C8. \<^verbatim>\<open>spacing\<close> and \<^verbatim>\<open>typography\<close> are computed once, from the viewport of the
  moment the module is loaded; after any sequence of dimension changes they still hold
  those values.
\<close>

theorem tables_frozen_at_load:
  "responsive (run h ds) = loadModule h
   \<and> spacing (responsive (run h ds)) = spacing (loadModule h)
   \<and> typography (responsive (run h ds)) = typography (loadModule h)"
  by (simp add: run_def responsive_foldl mount_def updateLayout_def Let_def)

lemma typography_stale_after_rotation:
  "map_of (typography (responsive (run (mkHost 640 320 ''ios'' 2)
             [\<lparr> width = Num 320, height = Num 640 \<rparr>]))) ''h1'' = Some (Num 28)
   \<and> rf (platform (run (mkHost 640 320 ''ios'' 2)
             [\<lparr> width = Num 320, height = Num 640 \<rparr>])) (Num 28) = Num 14
   \<and> columns (run (mkHost 640 320 ''ios'' 2) []) = 2
   \<and> columns (run (mkHost 640 320 ''ios'' 2) [\<lparr> width = Num 320, height = Num 640 \<rparr>]) = 1"
  by code_simp

section \<open>Percentages given as strings\<close>

lemma StringToNumber_percent:
  "StringToNumber ''1%'' = NaN" "StringToNumber ''2%'' = NaN" "StringToNumber ''4%'' = NaN"
  "StringToNumber ''6%'' = NaN" "StringToNumber ''8%'' = NaN" "StringToNumber ''10%'' = NaN"
  by code_simp+

lemma wp_NaN:
  assumes "ToNumber p = NaN" and "roundToNearestPixel h NaN = NaN"
  shows "wp h p = NaN"
  using assms by (simp add: wp_def Let_def)

lemma getAdaptivePadding_NaN:
  assumes "roundToNearestPixel h NaN = NaN"
  shows "getAdaptivePadding h = NaN"
  using assms by (simp add: getAdaptivePadding_def Let_def wp_NaN StringToNumber_percent)

lemma pixelRound_NaN: "pixelRound r NaN = NaN"
  by (simp add: pixelRound_def)

text \<open>
  Claim C10. \<^verbatim>\<open>wp\<close> is called with the strings \<open>'1%'\<close>, \<open>'2%'\<close>, ...; such a string is
  not a numeric literal, so its product with the width is \<open>NaN\<close>, and as the pixel rounding
  of the host passes \<open>NaN\<close> through, every field \<open>xs\<close>, \<open>sm\<close>, \<open>md\<close>, \<open>lg\<close>, \<open>xl\<close> of
  \<^verbatim>\<open>spacing\<close> is \<open>NaN\<close>, and so is the result of \<^verbatim>\<open>getAdaptivePadding\<close> on every
  viewport.
\<close>

theorem spacing_fields_NaN:
  assumes "roundToNearestPixel h NaN = NaN"
  shows "map fst (spacing (loadModule h)) = [''xs'', ''sm'', ''md'', ''lg'', ''xl'']
       \<and> (\<forall>v \<in> set (map snd (spacing (loadModule h))). v = NaN)
       \<and> getAdaptivePadding h = NaN"
  using assms
  by (simp add: loadModule_def wp_NaN StringToNumber_percent getAdaptivePadding_NaN)

theorem spacing_fields_NaN_witness:
  "map fst (spacing (loadModule (mkHost 320 640 ''android'' 2)))
     = [''xs'', ''sm'', ''md'', ''lg'', ''xl'']
   \<and> map snd (spacing (loadModule (mkHost 320 640 ''android'' 2)))
       = [NaN, NaN, NaN, NaN, NaN]
   \<and> getAdaptivePadding (mkHost 320 640 ''android'' 2) = NaN"
proof -
  have "roundToNearestPixel (mkHost 320 640 ''android'' 2) NaN = NaN"
    by (simp add: mkHost_def pixelRound_NaN)
  from spacing_fields_NaN [OF this] show ?thesis
    by (simp add: loadModule_def)
qed

text \<open>
  Claim C3 says that \<^verbatim>\<open>getAdaptivePadding\<close> returns 4 percent of the width on a small
  phone. On the viewport 320 by 640 (a small phone, pixel density 2) the source returns
  \<open>NaN\<close>, where \<^verbatim>\<open>wp\<close> called with the number 4, as its documentation asks, gives 13.
\<close>

theorem getAdaptivePadding_small_phone:
  "getDeviceType (mkHost 320 640 ''android'' 2) None = ''smallPhone''
   \<and> getAdaptivePadding (mkHost 320 640 ''android'' 2) = NaN
   \<and> wp (mkHost 320 640 ''android'' 2) (JNumber (Num 4)) = Num 13"
  by code_simp

section \<open>Fonts\<close>


lemma Math_round_near:
  assumes "of_int n - 1 / 2 \<le> q" and "q < of_int n + 1 / 2"
  shows "Math_round (Num q) = Num (of_int n)"
proof -
  have "\<lfloor>q + 1 / 2\<rfloor> = n" using assms by (intro floor_unique) auto
  then show ?thesis by simp
qed

lemma Math_round_zero: "Math_round (Num 0) = Num 0"
  using Math_round_near [of 0 0] by simp

text \<open>
  React Native's rounding at a pixel density of at least 1 moves an integer by less than
  half a pixel.
\<close>

lemma pixelRound_near:
  assumes "1 \<le> r"
  shows "\<exists>q. pixelRound r (Num (of_int n)) = Num q
            \<and> of_int n - 1 / 2 \<le> q \<and> q < of_int n + 1 / 2"
proof -
  let ?m = "\<lfloor>of_int n * r + 1 / 2\<rfloor>"
  have r0: "0 < r" using assms by simp
  have eq: "pixelRound r (Num (of_int n)) = Num (of_int ?m / r)"
    using r0 by (simp add: pixelRound_def)
  have up: "of_int ?m \<le> of_int n * r + 1 / 2" by (rule of_int_floor_le)
  have lo: "of_int n * r + 1 / 2 < of_int ?m + 1" by linarith
  have lower: "of_int n - 1 / 2 \<le> of_int ?m / r"
  proof -
    have "(of_int n - 1 / 2) * r \<le> of_int n * r - 1 / 2"
      using assms by (simp add: algebra_simps)
    also have "\<dots> \<le> of_int ?m" using lo by simp
    finally show ?thesis using r0 by (simp add: pos_le_divide_eq)
  qed
  have upper: "of_int ?m / r < of_int n + 1 / 2"
  proof (cases "r = 1")
    case True
    have "?m = n" unfolding True by (intro floor_unique) auto
    then show ?thesis using True by simp
  next
    case False
    then have "1 < r" using assms by simp
    then have "of_int n * r + 1 / 2 < (of_int n + 1 / 2) * r"
      by (simp add: algebra_simps)
    with up have "of_int ?m < (of_int n + 1 / 2) * r" by (rule le_less_trans)
    then show ?thesis using r0 by (simp add: pos_divide_less_eq)
  qed
  show ?thesis using eq lower upper by blast
qed


text \<open>
  The pixel rounding of the host matters as well: at density 0.75 the integer base size 2
  comes back as 3.
\<close>

lemma rf_reference_width_low_density:
  "rf (mkHost 640 320 ''ios'' (3 / 4)) (Num 2) = Num 3"
  by code_simp



section \<open>Fonts in double arithmetic\<close>

text \<open>
  The rounding function does what its name says: \<open>exponentOf\<close> brackets its argument
  between two consecutive powers of two, and a finite result of \<open>fl64\<close> is within half a
  unit of the last place of the exact value.
\<close>

lemma pow2_pos: "0 < pow2 e"
  by (simp add: pow2_def)

lemma pow2_add1: "pow2 (e + 1) = 2 * pow2 e"
proof (cases "0 \<le> e")
  case True
  then show ?thesis by (simp add: pow2_def nat_add_distrib)
next
  case False
  then have e: "e < 0" by simp
  show ?thesis
  proof (cases "e = - 1")
    case True
    then show ?thesis by (simp add: pow2_def)
  next
    case False
    with e have "e + 1 < 0" by simp
    moreover have "nat (- e) = Suc (nat (- (e + 1)))" using e by simp
    ultimately show ?thesis using e by (simp add: pow2_def del: minus_add_distrib)
  qed
qed

lemma pow2_neg: "pow2 (- e) = 1 / pow2 e"
  by (cases "e = 0") (auto simp: pow2_def)

lemma ilog2_bracket:
  "1 \<le> n \<Longrightarrow> 0 \<le> ilog2 n \<and> 2 ^ nat (ilog2 n) \<le> n \<and> n < 2 * 2 ^ nat (ilog2 n)"
proof (induction n rule: ilog2.induct)
  case (1 n)
  show ?case
  proof (cases "n < 2")
    case True
    with "1.prems" have "n = 1" by simp
    then show ?thesis by (simp add: ilog2.simps [of 1])
  next
    case False
    then have h: "1 \<le> n div 2" by simp
    from "1.IH" [OF False h]
    have ih: "0 \<le> ilog2 (n div 2)" "2 ^ nat (ilog2 (n div 2)) \<le> n div 2"
      "n div 2 < 2 * 2 ^ nat (ilog2 (n div 2))" by simp_all
    have eq: "ilog2 n = 1 + ilog2 (n div 2)" using False by (subst ilog2.simps) simp
    have n: "nat (1 + ilog2 (n div 2)) = Suc (nat (ilog2 (n div 2)))" using ih(1) by simp
    show ?thesis unfolding eq n using ih by auto
  qed
qed


lemma exponentOf_bracket:
  assumes "0 < a"
  shows "pow2 (exponentOf a) \<le> a \<and> a < pow2 (exponentOf a + 1)"
proof (cases "1 \<le> a")
  case True
  then have f: "1 \<le> \<lfloor>a\<rfloor>" by simp
  let ?k = "ilog2 \<lfloor>a\<rfloor>"
  from ilog2_bracket [OF f] have k: "0 \<le> ?k" "2 ^ nat ?k \<le> \<lfloor>a\<rfloor>" "\<lfloor>a\<rfloor> < 2 * 2 ^ nat ?k"
    by simp_all
  have e: "exponentOf a = ?k" using True by (simp add: exponentOf_def)
  have "(of_int (2 ^ nat ?k) :: rat) \<le> of_int \<lfloor>a\<rfloor>" using k(2) by (rule of_int_le_iff [THEN iffD2])
  also have "\<dots> \<le> a" by simp
  finally have lo: "pow2 ?k \<le> a" using k(1) by (simp add: pow2_def)
  have "\<lfloor>a\<rfloor> + 1 \<le> 2 * 2 ^ nat ?k" using k(3) by simp
  then have "(of_int (\<lfloor>a\<rfloor> + 1) :: rat) \<le> of_int (2 * 2 ^ nat ?k)" by (rule of_int_le_iff [THEN iffD2])
  moreover have "a < of_int (\<lfloor>a\<rfloor> + 1)" by linarith
  ultimately have "a < of_int (2 * 2 ^ nat ?k)" by simp
  then have hi: "a < pow2 (?k + 1)" using k(1) by (simp add: pow2_add1) (simp add: pow2_def)
  show ?thesis using lo hi e by simp
next
  case False
  then have a1: "a < 1" by simp
  let ?b = "1 / a"
  have b1: "1 \<le> ?b" using assms a1 by simp
  then have f: "1 \<le> \<lfloor>?b\<rfloor>" by simp
  let ?k = "ilog2 \<lfloor>?b\<rfloor>"
  from ilog2_bracket [OF f] have k: "0 \<le> ?k" "2 ^ nat ?k \<le> \<lfloor>?b\<rfloor>" "\<lfloor>?b\<rfloor> < 2 * 2 ^ nat ?k"
    by simp_all
  have "(of_int (2 ^ nat ?k) :: rat) \<le> of_int \<lfloor>?b\<rfloor>" using k(2) by (rule of_int_le_iff [THEN iffD2])
  also have "\<dots> \<le> ?b" by simp
  finally have lo: "pow2 ?k \<le> ?b" using k(1) by (simp add: pow2_def)
  have "\<lfloor>?b\<rfloor> + 1 \<le> 2 * 2 ^ nat ?k" using k(3) by simp
  then have "(of_int (\<lfloor>?b\<rfloor> + 1) :: rat) \<le> of_int (2 * 2 ^ nat ?k)" by (rule of_int_le_iff [THEN iffD2])
  moreover have "?b < of_int (\<lfloor>?b\<rfloor> + 1)" by linarith
  ultimately have "?b < of_int (2 * 2 ^ nat ?k)" by simp
  then have hi: "?b < pow2 (?k + 1)" using k(1) by (simp add: pow2_add1) (simp add: pow2_def)
  have up: "a \<le> pow2 (- ?k)"
    using lo assms pow2_pos [of ?k] by (simp add: pow2_neg field_simps)
  have dn: "pow2 (- ?k - 1) < a"
  proof -
    have "- ?k - 1 = - (?k + 1)" by simp
    then have eq: "pow2 (- ?k - 1) = 1 / pow2 (?k + 1)" by (simp only: pow2_neg)
    have "1 / pow2 (?k + 1) < a"
      using hi assms pow2_pos [of "?k + 1"] by (simp add: field_simps)
    then show ?thesis by (simp only: eq)
  qed
  show ?thesis
  proof (cases "pow2 (- ?k) \<le> a")
    case True
    then have e: "exponentOf a = - ?k" using False by (simp add: exponentOf_def Let_def)
    have "a < 2 * pow2 (- ?k)" using up pow2_pos [of "- ?k"] by simp
    then have "a < pow2 (- ?k + 1)" by (simp only: pow2_add1)
    then show ?thesis using True e by simp
  next
    case F: False
    then have e: "exponentOf a = - ?k - 1" using False by (simp add: exponentOf_def Let_def)
    have "a < pow2 (- ?k - 1 + 1)" using F by simp
    then show ?thesis using dn e by simp
  qed
qed

lemma roundHalfEven_near: "\<bar>of_int (roundHalfEven y) - y\<bar> \<le> 1 / 2"
proof -
  have "of_int \<lfloor>y\<rfloor> \<le> y" "y < of_int \<lfloor>y\<rfloor> + 1" by linarith+
  then show ?thesis by (auto simp: roundHalfEven_def Let_def)
qed

lemma fl64_zero: "fl64 0 = Num 0"
  by (simp add: fl64_def)

lemma fl64_minus_two: "fl64 (- 2) = Num (- 2)"
  by code_simp

lemma fl64_near:
  assumes "fl64 x = Num y"
  shows "\<bar>y - x\<bar> \<le> pow2 (max (exponentOf \<bar>x\<bar> - 52) (- 1074)) / 2"
proof -
  define p where "p = pow2 (max (exponentOf \<bar>x\<bar> - 52) (- 1074))"
  define m where "m = (of_int (roundHalfEven (\<bar>x\<bar> / p)) :: rat)"
  have p: "0 < p" unfolding p_def by (rule pow2_pos)
  have y: "y = sgn x * (m * p)"
  proof (cases "x = 0")
    case True
    then show ?thesis using assms by (simp add: fl64_def)
  next
    case False
    then have "fl64 x = (if pow2 1024 \<le> m * p then inf_of_sign (sgn x) else Num (sgn x * (m * p)))"
      by (simp add: fl64_def Let_def m_def p_def)
    with assms False show ?thesis
      by (cases "pow2 1024 \<le> m * p") (auto simp: inf_of_sign_def sgn_if split: if_splits)
  qed
  have "\<bar>m - \<bar>x\<bar> / p\<bar> \<le> 1 / 2" unfolding m_def by (rule roundHalfEven_near)
  then have "\<bar>m - \<bar>x\<bar> / p\<bar> * p \<le> 1 / 2 * p"
    using p by (simp only: mult_le_cancel_right_pos)
  moreover have "\<bar>m - \<bar>x\<bar> / p\<bar> * p = \<bar>(m - \<bar>x\<bar> / p) * p\<bar>"
    using p by (simp add: abs_mult)
  moreover have "(m - \<bar>x\<bar> / p) * p = m * p - \<bar>x\<bar>"
    using p by (simp add: left_diff_distrib)
  ultimately have b: "\<bar>m * p - \<bar>x\<bar>\<bar> \<le> p / 2" by simp
  show ?thesis
  proof (cases "x = 0")
    case True
    then have "y = 0" using assms by (simp add: fl64_def)
    then show ?thesis using True p by (simp add: p_def)
  next
    case nz: False
    have "\<bar>y - x\<bar> = \<bar>m * p - \<bar>x\<bar>\<bar>"
    proof (cases "0 < x")
      case True
      then show ?thesis using y by simp
    next
      case False
      with nz have "sgn x = - 1" "\<bar>x\<bar> = - x" by simp_all
      then have "y - x = - (m * p - \<bar>x\<bar>)" using y by simp
      then show ?thesis by (simp only: abs_minus_cancel)
    qed
    then show ?thesis using b by (simp add: p_def)
  qed
qed

text \<open>
  The double-precision \<open>rf64\<close> agrees with the exact \<open>rf\<close> at the reference width, and
  differs from it elsewhere: at width 448 the scale 0.7 is not a double, and the base size
  45 comes back as 31 where exact arithmetic gives 31.5 and then 32.
\<close>

lemma rf64_reference_width:
  "rf64 (mkHost64 640 320 ''ios'' 2) (Num 28) = rf (mkHost 640 320 ''ios'' 2) (Num 28)
   \<and> rf64 (mkHost64 640 320 ''android'' 2) (Num 28)
       = rf (mkHost 640 320 ''android'' 2) (Num 28)"
  by code_simp

lemma rf64_width_448:
  "rf64 (mkHost64 448 800 ''ios'' 1) (Num 45) = Num 31
   \<and> rf (mkHost 448 800 ''ios'' 1) (Num 45) = Num 32"
  by code_simp

text \<open>
  Claim C9 as stated: for a base size of zero or less \<^verbatim>\<open>rf\<close> returns exactly the rounded,
  pixel-aligned value of base size times width over 640. At width 704, density 1, on \<open>ios\<close>,
  the base size -25 gives -28: the source divides first, 704 / 640 rounds to a double just
  above 1.1, and the product falls just below -27.5. The formula of the claim is -17600 / 640,
  exactly -27.5, which rounds to -27, in double arithmetic as in exact arithmetic.
\<close>

theorem rf_no_floor_counterexample:
  "rf64 (mkHost64 704 800 ''ios'' 1) (Num (- 25)) = Num (- 28)
   \<and> Math_round (roundToNearestPixel (mkHost64 704 800 ''ios'' 1)
        (div64 (mul64 (Num (- 25)) (width (window (mkHost64 704 800 ''ios'' 1)))) (Num 640)))
       = Num (- 27)
   \<and> Math_round (roundToNearestPixel (mkHost64 704 800 ''ios'' 1)
        (js_div (js_mul (Num (- 25)) (width (window (mkHost64 704 800 ''ios'' 1)))) (Num 640)))
       = Num (- 27)"
  by code_simp

text \<open>
  Claim C9, amended. \<^verbatim>\<open>rf\<close> puts no floor under its result: for a base size of zero or
  less it returns the rounded, pixel-aligned value of the base size times the scale, where
  the scale is the width over 640 computed first and every operation is rounded to a
  double, less 2 off \<open>ios\<close>. When the scale is finite and the pixel rounding maps 0 to 0,
  \<^verbatim>\<open>rf(0)\<close> is 0 on \<open>ios\<close> and -2 elsewhere.
\<close>

theorem rf64_no_floor:
  assumes "b \<le> 0"
  shows "rf64 h (Num b) =
           (let raw = Math_round (roundToNearestPixel h
                        (mul64 (Num b) (div64 (width (window h)) (Num 640))))
            in if OS h = ''ios'' then raw else sub64 raw (Num 2))
       \<and> (div64 (width (window h)) (Num 640) = Num s \<and> roundToNearestPixel h (Num 0) = Num 0
            \<longrightarrow> rf64 h (Num 0) = (if OS h = ''ios'' then Num 0 else Num (- 2)))"
  by (simp add: rf64_def getCurrentDimensions_def Let_def fl64_zero fl64_minus_two
        Math_round_zero del: Math_round.simps)

theorem rf64_no_floor_witness:
  "rf64 (mkHost64 320 640 ''android'' 2) (Num (- 3)) =
     (let raw = Math_round (roundToNearestPixel (mkHost64 320 640 ''android'' 2)
                  (mul64 (Num (- 3)) (div64 (width (window (mkHost64 320 640 ''android'' 2)))
                     (Num 640))))
      in if OS (mkHost64 320 640 ''android'' 2) = ''ios'' then raw else sub64 raw (Num 2))
   \<and> rf64 (mkHost64 320 640 ''android'' 2) (Num 0) = Num (- 2)
   \<and> rf64 (mkHost64 320 640 ''ios'' 2) (Num 0) = Num 0
   \<and> rf64 (mkHost64 320 640 ''android'' 2) (Num (- 3)) = Num (- 3)"
proof -
  have z: "roundToNearestPixel (mkHost64 320 640 os 2) (Num 0) = Num 0" for os
    by (simp add: mkHost64_def pixelRound64_def fl64_zero Math_round_zero
          del: Math_round.simps)
  have s: "div64 (width (window (mkHost64 320 640 os 2))) (Num 640) = Num (1 / 2)" for os
    unfolding mkHost64_def by code_simp
  have v: "rf64 (mkHost64 320 640 ''android'' 2) (Num (- 3)) = Num (- 3)"
    by code_simp
  show ?thesis
    using rf64_no_floor [of "- 3" "mkHost64 320 640 ''android'' 2" "1 / 2"]
      rf64_no_floor [of "- 3" "mkHost64 320 640 ''ios'' 2" "1 / 2"] z s v
    by (simp add: mkHost64_def)
qed

end
